theory Spec2Isabelle
  imports Complex_Main
begin

section \<open>Data model of the base table\<close>

text \<open>
  JavaScript numbers that carry pixel quantities (column widths, scroll offsets, viewport
  sizes) are modelled as exact rationals; array positions are natural numbers; row and
  column indices that take part in subtractions are integers. Sums of rationals are
  exact and do not depend on the order of the additions, where the code's doubles round:
  what is proved below about comparisons and index bounds reads the code's own running
  sums as exact, and nothing below speaks for the rounded value of a sum.
\<close>

type_synonym number = rat

text \<open>The rectangle a column's \<open>getSpanRect\<close> callback returns (half-open on both axes).\<close>

record SpanRect =
  span_top :: int
  span_bottom :: int
  span_left :: int
  span_right :: int

text \<open>
  The two fields of the cell properties that \<open>renderCell\<close> reads, \<open>colSpan\<close> and
  \<open>rowSpan\<close>; each may be absent.
\<close>

record CellProps =
  props_colSpan :: "int option"
  props_rowSpan :: "int option"

text \<open>
  A column: its pixel width and its two optional span callbacks. A callback receives the
  row record and the row index (the cell value the source also passes is a function of
  the column, the record and the row index) and may return null.
\<close>

record 'r ArtColumn =
  width :: number
  getCellProps :: "('r \<Rightarrow> int \<Rightarrow> CellProps option) option"
  getSpanRect :: "('r \<Rightarrow> int \<Rightarrow> SpanRect option) option"

record 'r FlatColumns =
  full :: "'r ArtColumn list"
  left :: "'r ArtColumn list"
  center :: "'r ArtColumn list"
  right :: "'r ArtColumn list"

record UseVirtual =
  horizontal :: bool
  vertical :: bool
  header :: bool

text \<open>\<open>BaseTableState\<close>, without the nested column trees and the sticky offset maps.\<close>

record 'r BaseTableState =
  flat :: "'r FlatColumns"
  hasScroll :: bool
  needRenderLock :: bool
  useVirtual :: UseVirtual
  offsetY :: number
  maxRenderHeight :: number
  offsetX :: number
  maxRenderWidth :: number

record HorizontalRenderRange =
  leftIndex :: nat
  leftBlank :: number
  rightIndex :: nat
  rightBlank :: number

record VerticalRenderRange =
  topIndex :: nat
  topBlank :: number
  bottomIndex :: nat
  bottomBlank :: number

section \<open>Array helpers\<close>

text \<open>
  \<open>Array.prototype.slice(start, end)\<close>: a negative argument counts from the end of the
  array, both are clamped to the array, and an end before the start gives the empty array.
\<close>

definition slice :: "int \<Rightarrow> int \<Rightarrow> 'a list \<Rightarrow> 'a list" where
  "slice start end xs =
     (let len = int (length xs);
          k = (if start < 0 then max (len + start) 0 else min start len);
          final = (if end < 0 then max (len + end) 0 else min end len)
      in take (nat (final - k)) (drop (nat k) xs))"

text \<open>\<open>slice(start)\<close> with the end left out runs to the end of the array.\<close>

definition slice_from :: "int \<Rightarrow> 'a list \<Rightarrow> 'a list" where
  "slice_from start xs = slice start (int (length xs)) xs"

text \<open>
  Modelled from the spec: the helper \<open>sum\<close> of \<open>utils\<close> is not among the sources; the spec
  calls its result the sum of the column widths it is given.
\<close>

definition sum_numbers :: "number list \<Rightarrow> number" where
  "sum_numbers xs = sum_list xs"

section \<open>Horizontal render range\<close>

text \<open>
  The first loop of \<open>getHorizontalRenderRange\<close>, on its variables \<open>leftIndex\<close> (here
  \<open>index\<close>) and \<open>leftBlank\<close> (here \<open>blank\<close>): advance \<open>leftIndex\<close> while the column's
  trailing edge stays strictly left of \<open>overscannedOffsetX\<close>.
\<close>

function leftLoop :: "number \<Rightarrow> 'r ArtColumn list \<Rightarrow> nat \<Rightarrow> number \<Rightarrow> nat \<times> number" where
  "leftLoop overscannedOffsetX cols index blank =
     (if index < length cols then
        (let col = cols ! index in
         if width col + blank < overscannedOffsetX
         then leftLoop overscannedOffsetX cols (index + 1) (blank + width col)
         else (index, blank))
      else (index, blank))"
  by pat_completeness auto
termination
  by (relation "measure (\<lambda>(t, cols, index, blank). length cols - index)") auto

declare leftLoop.simps [simp del]

text \<open>
  The second loop: count center columns from \<open>leftIndex\<close> while the rendered width with the
  next column stays strictly below \<open>minCenterRenderWidth\<close>.
\<close>

function centerLoop ::
  "number \<Rightarrow> 'r ArtColumn list \<Rightarrow> nat \<Rightarrow> nat \<Rightarrow> number \<Rightarrow> nat \<times> number" where
  "centerLoop minCenterRenderWidth cols index centerCount centerRenderWidth =
     (if index + centerCount < length cols then
        (let col = cols ! (index + centerCount) in
         if width col + centerRenderWidth < minCenterRenderWidth
         then centerLoop minCenterRenderWidth cols index (centerCount + 1)
                (centerRenderWidth + width col)
         else (centerCount, centerRenderWidth))
      else (centerCount, centerRenderWidth))"
  by pat_completeness auto
termination
  by (relation "measure (\<lambda>(t, cols, index, centerCount, w).
        length cols - (index + centerCount))") auto

declare centerLoop.simps [simp del]

text \<open>
  \<open>getHorizontalRenderRange\<close>. The constant \<open>OVERSCAN_SIZE\<close> of \<open>utils\<close> is not among the
  sources and is taken as a parameter.
\<close>

definition getHorizontalRenderRange ::
  "number \<Rightarrow> 'r BaseTableState \<Rightarrow> HorizontalRenderRange" where
  "getHorizontalRenderRange OVERSCAN_SIZE state =
     (if \<not> horizontal (useVirtual state) then
        \<lparr>leftIndex = 0, leftBlank = 0,
         rightIndex = length (full (flat state)), rightBlank = 0\<rparr>
      else
        (let cols = center (flat state);
             overscannedOffsetX = max 0 (offsetX state - OVERSCAN_SIZE);
             (leftIndex, leftBlank) = leftLoop overscannedOffsetX cols 0 0;
             minCenterRenderWidth =
               maxRenderWidth state + (overscannedOffsetX - leftBlank) + 2 * OVERSCAN_SIZE;
             (centerCount, centerRenderWidth) =
               centerLoop minCenterRenderWidth cols leftIndex 0 0;
             rightBlankCount = int (length cols) - int leftIndex - int centerCount;
             rightBlank =
               sum_numbers (map width (slice_from (int (length cols) - rightBlankCount) cols))
         in \<lparr>leftIndex = leftIndex, leftBlank = leftBlank,
             rightIndex = leftIndex + centerCount, rightBlank = rightBlank\<rparr>))"

text \<open>The sum of the widths of a run of columns.\<close>

definition widths :: "'r ArtColumn list \<Rightarrow> number" where
  "widths cols = sum_list (map width cols)"

text \<open>A column without span callbacks, a table state with the given column groups.\<close>

definition plainColumn :: "number \<Rightarrow> 'r ArtColumn" where
  "plainColumn w = \<lparr>width = w, getCellProps = None, getSpanRect = None\<rparr>"

definition tableState ::
  "'r ArtColumn list \<Rightarrow> 'r ArtColumn list \<Rightarrow> 'r ArtColumn list \<Rightarrow> bool \<Rightarrow> number \<Rightarrow> number
     \<Rightarrow> 'r BaseTableState" where
  "tableState l c r virtualHorizontal x w =
     \<lparr>flat = \<lparr>full = l @ c @ r, left = l, center = c, right = r\<rparr>,
      hasScroll = True, needRenderLock = True,
      useVirtual = \<lparr>horizontal = virtualHorizontal, vertical = False, header = False\<rparr>,
      offsetY = 0, maxRenderHeight = 600, offsetX = x, maxRenderWidth = w\<rparr>"

section \<open>Column layout of a render pass\<close>

datatype BlankSide = BlankLeft | BlankRight

text \<open>
  \<open>HozWrappedCol\<close>: a rendered column with its index among all flat columns, or a blank
  placeholder with its width.
\<close>

datatype 'r HozWrappedCol =
  Normal "'r ArtColumn" int
| Blank BlankSide number

definition getFlatHozWrappedCols ::
  "'r BaseTableState \<Rightarrow> HorizontalRenderRange \<Rightarrow> 'r HozWrappedCol list" where
  "getFlatHozWrappedCols state hoz =
     (let fl = flat state in
      map (\<lambda>(i, col). Normal col (int i)) (enumerate 0 (left fl))
      @ (if leftBlank hoz > 0 then [Blank BlankLeft (leftBlank hoz)] else [])
      @ map (\<lambda>(i, col). Normal col (int (length (left fl)) + int (leftIndex hoz) + int i))
          (enumerate 0 (slice (int (leftIndex hoz)) (int (rightIndex hoz)) (center fl)))
      @ (if rightBlank hoz > 0 then [Blank BlankRight (rightBlank hoz)] else [])
      @ map (\<lambda>(i, col). Normal col (int (length (full fl)) - int (length (right fl)) + int i))
          (enumerate 0 (right fl)))"

section \<open>Span manager\<close>

text \<open>
  Modelled from the spec: the class \<open>SpanManager\<close> of \<open>helpers/SpanManager\<close> is not among
  the sources. The spec describes a tracker that stores the rectangles registered in the
  current pass, reports a cell as covered when a registered rectangle contains it and the
  cell is not that rectangle's own origin, and before each row drops the rectangles that
  can no longer reach the current or a later row.
\<close>

type_synonym SpanManager = "SpanRect list"

definition SpanManager_add :: "SpanManager \<Rightarrow> int \<Rightarrow> int \<Rightarrow> int \<Rightarrow> int \<Rightarrow> SpanManager" where
  "SpanManager_add rects rowIndex colIndex colSpan rowSpan =
     rects @ [\<lparr>span_top = rowIndex, span_bottom = rowIndex + rowSpan,
               span_left = colIndex, span_right = colIndex + colSpan\<rparr>]"

definition SpanManager_testSkip :: "SpanManager \<Rightarrow> int \<Rightarrow> int \<Rightarrow> bool" where
  "SpanManager_testSkip rects rowIndex colIndex =
     list_ex (\<lambda>rect. span_left rect \<le> colIndex \<and> colIndex < span_right rect
                  \<and> span_top rect \<le> rowIndex \<and> rowIndex < span_bottom rect
                  \<and> (span_top rect, span_left rect) \<noteq> (rowIndex, colIndex)) rects"

definition SpanManager_stripUpwards :: "SpanManager \<Rightarrow> int \<Rightarrow> SpanManager" where
  "SpanManager_stripUpwards rects rowIndex = filter (\<lambda>rect. span_bottom rect > rowIndex) rects"

section \<open>Rendering the cells of the table body\<close>

text \<open>
  The state a render pass threads through its cells: the span manager, and the trace of
  the calls \<open>spanManager.add(rowIndex, colIndex, colSpan, rowSpan)\<close> made so far.
\<close>

record RenderPass =
  spanManager :: SpanManager
  addCalls :: "(int \<times> int \<times> int \<times> int) list"

text \<open>The \<open>td\<close> element of a cell: its key and its two span attributes.\<close>

record Td =
  key :: int
  td_colSpan :: "int option"
  td_rowSpan :: "int option"

text \<open>\<open>column.getCellProps?.(value, record, rowIndex) ?? {}\<close>\<close>

definition cellPropsOf :: "'r ArtColumn \<Rightarrow> 'r \<Rightarrow> int \<Rightarrow> CellProps" where
  "cellPropsOf column rec rowIndex =
     (case getCellProps column of
        None \<Rightarrow> \<lparr>props_colSpan = None, props_rowSpan = None\<rparr>
      | Some f \<Rightarrow>
          (case f rec rowIndex of
             None \<Rightarrow> \<lparr>props_colSpan = None, props_rowSpan = None\<rparr>
           | Some cellProps \<Rightarrow> cellProps))"

text \<open>
  The spans a cell asks for, as the pair \<open>(colSpan, rowSpan)\<close>: from \<open>getSpanRect\<close> when the
  column has one, from the cell properties otherwise, 1 where nothing is given.
\<close>

definition requestedSpan :: "'r ArtColumn \<Rightarrow> 'r \<Rightarrow> int \<Rightarrow> int \<Rightarrow> int \<times> int" where
  "requestedSpan column rec rowIndex colIndex =
     (case getSpanRect column of
        Some f \<Rightarrow>
          (case f rec rowIndex of
             None \<Rightarrow> (1, 1)
           | Some spanRect \<Rightarrow> (span_right spanRect - colIndex, span_bottom spanRect - rowIndex))
      | None \<Rightarrow>
          (let cellProps = cellPropsOf column rec rowIndex in
           (case props_colSpan cellProps of Some c \<Rightarrow> c | None \<Rightarrow> 1,
            case props_rowSpan cellProps of Some r \<Rightarrow> r | None \<Rightarrow> 1)))"

text \<open>
  The clamping of both spans to the render range, again as \<open>(colSpan, rowSpan)\<close>:
  \<open>rowSpan = Math.min(rowSpan, ver.bottomIndex - rowIndex)\<close> and
  \<open>colSpan = Math.min(colSpan, leftFlatCount + hoz.rightIndex - colIndex)\<close>.
\<close>

definition clampSpan ::
  "VerticalRenderRange \<Rightarrow> HorizontalRenderRange \<Rightarrow> nat \<Rightarrow> int \<Rightarrow> int \<Rightarrow> int \<times> int \<Rightarrow> int \<times> int" where
  "clampSpan ver hoz leftFlatCount rowIndex colIndex requested =
     (let (colSpan, rowSpan) = requested;
          rowSpan = min rowSpan (int (bottomIndex ver) - rowIndex);
          colSpan = min colSpan (int leftFlatCount + int (rightIndex hoz) - colIndex)
      in (colSpan, rowSpan))"

definition effectiveSpan ::
  "VerticalRenderRange \<Rightarrow> HorizontalRenderRange \<Rightarrow> nat \<Rightarrow> 'r \<Rightarrow> int \<Rightarrow> 'r ArtColumn \<Rightarrow> int
     \<Rightarrow> int \<times> int" where
  "effectiveSpan ver hoz leftFlatCount rec rowIndex column colIndex =
     clampSpan ver hoz leftFlatCount rowIndex colIndex
       (requestedSpan column rec rowIndex colIndex)"

text \<open>
  \<open>renderCell\<close>: null for a cell the span manager reports as covered; otherwise the \<open>td\<close>,
  after registering the cell when one of its clamped spans is above 1. The \<open>td\<close> takes the
  attributes of the cell properties first and the clamped spans over them when
  \<open>hasSpan\<close> holds.
\<close>

definition renderCell ::
  "VerticalRenderRange \<Rightarrow> HorizontalRenderRange \<Rightarrow> nat \<Rightarrow> RenderPass \<Rightarrow> 'r \<Rightarrow> int
     \<Rightarrow> 'r ArtColumn \<Rightarrow> int \<Rightarrow> Td option \<times> RenderPass" where
  "renderCell ver hoz leftFlatCount pass rec rowIndex column colIndex =
     (if SpanManager_testSkip (spanManager pass) rowIndex colIndex then (None, pass)
      else
        (let cellProps = cellPropsOf column rec rowIndex;
             (colSpan, rowSpan) = effectiveSpan ver hoz leftFlatCount rec rowIndex column colIndex;
             hasSpan = (colSpan > 1 \<or> rowSpan > 1);
             pass' =
               (if hasSpan
                then pass\<lparr>spanManager :=
                            SpanManager_add (spanManager pass) rowIndex colIndex colSpan rowSpan,
                          addCalls := addCalls pass @ [(rowIndex, colIndex, colSpan, rowSpan)]\<rparr>
                else pass)
         in (Some \<lparr>key = colIndex,
                   td_colSpan = (if hasSpan then Some colSpan else props_colSpan cellProps),
                   td_rowSpan = (if hasSpan then Some rowSpan else props_rowSpan cellProps)\<rparr>,
             pass')))"

text \<open>The children of a \<open>tr\<close>: an empty \<open>td\<close> for a blank column, or what \<open>renderCell\<close> gave.\<close>

datatype RowChild = BlankTd BlankSide | Cell "Td option"

record Tr =
  data_rowindex :: int
  children :: "RowChild list"

text \<open>\<open>wrappedCols.map(...)\<close> inside \<open>renderRow\<close>, left to right.\<close>

fun renderCells ::
  "VerticalRenderRange \<Rightarrow> HorizontalRenderRange \<Rightarrow> nat \<Rightarrow> 'r \<Rightarrow> int \<Rightarrow> RenderPass
     \<Rightarrow> 'r HozWrappedCol list \<Rightarrow> RowChild list \<times> RenderPass" where
  "renderCells ver hoz leftFlatCount rec rowIndex pass [] = ([], pass)"
| "renderCells ver hoz leftFlatCount rec rowIndex pass (Blank side w # wrappedCols) =
     (let (cells, pass') = renderCells ver hoz leftFlatCount rec rowIndex pass wrappedCols
      in (BlankTd side # cells, pass'))"
| "renderCells ver hoz leftFlatCount rec rowIndex pass (Normal col colIndex # wrappedCols) =
     (let (td, pass1) = renderCell ver hoz leftFlatCount pass rec rowIndex col colIndex;
          (cells, pass2) = renderCells ver hoz leftFlatCount rec rowIndex pass1 wrappedCols
      in (Cell td # cells, pass2))"

definition renderRow ::
  "VerticalRenderRange \<Rightarrow> HorizontalRenderRange \<Rightarrow> nat \<Rightarrow> 'r HozWrappedCol list \<Rightarrow> RenderPass
     \<Rightarrow> 'r \<Rightarrow> nat \<Rightarrow> Tr \<times> RenderPass" where
  "renderRow ver hoz leftFlatCount wrappedCols pass rec i =
     (let rowIndex = int (topIndex ver) + int i;
          pass1 = pass\<lparr>spanManager := SpanManager_stripUpwards (spanManager pass) rowIndex\<rparr>;
          (cells, pass2) = renderCells ver hoz leftFlatCount rec rowIndex pass1 wrappedCols
      in (\<lparr>data_rowindex = rowIndex, children = cells\<rparr>, pass2))"

text \<open>\<open>.map(renderRow)\<close> over the records of the vertical range, top to bottom.\<close>

fun renderRows ::
  "VerticalRenderRange \<Rightarrow> HorizontalRenderRange \<Rightarrow> nat \<Rightarrow> 'r HozWrappedCol list \<Rightarrow> RenderPass
     \<Rightarrow> (nat \<times> 'r) list \<Rightarrow> Tr list \<times> RenderPass" where
  "renderRows ver hoz leftFlatCount wrappedCols pass [] = ([], pass)"
| "renderRows ver hoz leftFlatCount wrappedCols pass ((i, rec) # rest) =
     (let (tr, pass1) = renderRow ver hoz leftFlatCount wrappedCols pass rec i;
          (trs, pass2) = renderRows ver hoz leftFlatCount wrappedCols pass1 rest
      in (tr # trs, pass2))"

text \<open>\<open>new SpanManager()\<close>, with no call made yet.\<close>

definition newPass :: RenderPass where
  "newPass = \<lparr>spanManager = [], addCalls = []\<rparr>"

text \<open>
  The rows of \<open>renderTableBody\<close>: a fresh span manager, and
  \<open>dataSource.slice(ver.topIndex, ver.bottomIndex).map(renderRow)\<close>.
\<close>

definition renderTableBody ::
  "'r BaseTableState \<Rightarrow> 'r list \<Rightarrow> VerticalRenderRange \<Rightarrow> HorizontalRenderRange
     \<Rightarrow> Tr list \<times> RenderPass" where
  "renderTableBody state dataSource ver hoz =
     (let wrappedCols = getFlatHozWrappedCols state hoz;
          leftFlatCount = length (left (flat state));
          spanManager = newPass
      in renderRows ver hoz leftFlatCount wrappedCols spanManager
           (enumerate 0 (slice (int (topIndex ver)) (int (bottomIndex ver)) dataSource)))"

section \<open>Viewport updates\<close>

record ClipRect =
  rect_top :: number
  rect_bottom :: number
  rect_left :: number
  rect_right :: number

text \<open>What the visible-part observable emits: the clip rectangle and the vertical offset.\<close>

record VisiblePart =
  clipRect :: ClipRect
  part_offsetY :: number

text \<open>The value the subscriber hands to \<open>setState\<close>.\<close>

record SizeAndOffset =
  next_maxRenderHeight :: number
  next_maxRenderWidth :: number
  next_offsetY :: number

text \<open>
  The table instance as the viewport pipeline sees it: \<open>this.state\<close>, and the key that the
  pipeline's \<open>distinctUntilChanged\<close> operator remembers (none before its first value).
\<close>

record 'r BaseTable =
  this_state :: "'r BaseTableState"
  previousKey :: "SizeAndOffset option"

text \<open>The \<open>op.map\<close> step of the pipeline.\<close>

definition sizeAndOffsetOf :: "VisiblePart \<Rightarrow> SizeAndOffset" where
  "sizeAndOffsetOf part =
     \<lparr>next_maxRenderHeight = rect_bottom (clipRect part) - rect_top (clipRect part),
      next_maxRenderWidth = rect_right (clipRect part) - rect_left (clipRect part),
      next_offsetY = part_offsetY part\<rparr>"

text \<open>The comparator given to \<open>distinctUntilChanged\<close>: true when nothing moved far enough.\<close>

definition sizeAndOffsetUnchanged :: "number \<Rightarrow> SizeAndOffset \<Rightarrow> SizeAndOffset \<Rightarrow> bool" where
  "sizeAndOffsetUnchanged OVERSCAN_SIZE x y =
     (\<bar>next_maxRenderWidth x - next_maxRenderWidth y\<bar> < OVERSCAN_SIZE / 2
      \<and> \<bar>next_maxRenderHeight x - next_maxRenderHeight y\<bar> < OVERSCAN_SIZE / 2
      \<and> \<bar>next_offsetY x - next_offsetY y\<bar> < OVERSCAN_SIZE / 2)"

text \<open>
  One value through the RxJS operator \<open>distinctUntilChanged(compare)\<close>: the first value is
  passed on; a later value is passed on unless \<open>compare\<close> holds between the remembered
  key and the value; the key is replaced only by a value that is passed on. The result is
  the new key and the value passed on, if any.
\<close>

definition distinctUntilChanged ::
  "('a \<Rightarrow> 'a \<Rightarrow> bool) \<Rightarrow> 'a option \<Rightarrow> 'a \<Rightarrow> 'a option \<times> 'a option" where
  "distinctUntilChanged compare prev v =
     (case prev of
        None \<Rightarrow> (Some v, Some v)
      | Some k \<Rightarrow> if compare k v then (Some k, None) else (Some v, Some v))"

text \<open>\<open>this.setState(sizeAndOffset)\<close>\<close>

definition setState_sizeAndOffset :: "'r BaseTableState \<Rightarrow> SizeAndOffset \<Rightarrow> 'r BaseTableState" where
  "setState_sizeAndOffset state sizeAndOffset =
     state\<lparr>maxRenderHeight := next_maxRenderHeight sizeAndOffset,
           maxRenderWidth := next_maxRenderWidth sizeAndOffset,
           offsetY := next_offsetY sizeAndOffset\<rparr>"

text \<open>
  One visible-part event through the last subscription of \<open>initSubscriptions\<close>: the filter
  on \<open>useVirtual\<close>, the map, \<open>distinctUntilChanged\<close> and the subscriber. The result is the
  table afterwards and the value \<open>setState\<close> was called with, if it was called.
\<close>

definition onVisiblePart ::
  "number \<Rightarrow> 'r BaseTable \<Rightarrow> VisiblePart \<Rightarrow> 'r BaseTable \<times> SizeAndOffset option" where
  "onVisiblePart OVERSCAN_SIZE table part =
     (if \<not> (horizontal (useVirtual (this_state table)) \<or> vertical (useVirtual (this_state table)))
      then (table, None)
      else
        (let (key', passed) =
               distinctUntilChanged (sizeAndOffsetUnchanged OVERSCAN_SIZE) (previousKey table)
                 (sizeAndOffsetOf part)
         in case passed of
              None \<Rightarrow> (table\<lparr>previousKey := key'\<rparr>, None)
            | Some sizeAndOffset \<Rightarrow>
                (table\<lparr>this_state := setState_sizeAndOffset (this_state table) sizeAndOffset,
                       previousKey := key'\<rparr>,
                 Some sizeAndOffset)))"

text \<open>A sequence of visible-part events, with what \<open>setState\<close> was called with at each.\<close>

fun onVisibleParts ::
  "number \<Rightarrow> 'r BaseTable \<Rightarrow> VisiblePart list \<Rightarrow> 'r BaseTable \<times> SizeAndOffset option list" where
  "onVisibleParts OVERSCAN_SIZE table [] = (table, [])"
| "onVisibleParts OVERSCAN_SIZE table (part # parts) =
     (let (table1, out) = onVisiblePart OVERSCAN_SIZE table part;
          (table2, outs) = onVisibleParts OVERSCAN_SIZE table1 parts
      in (table2, out # outs))"

text \<open>
  \<open>updateOffsetX\<close>: the state \<open>setState\<close> leaves when it is called, nothing when it is not.
\<close>

definition updateOffsetX :: "number \<Rightarrow> 'r BaseTableState \<Rightarrow> number \<Rightarrow> 'r BaseTableState option" where
  "updateOffsetX OVERSCAN_SIZE state nextOffsetX =
     (if horizontal (useVirtual state) then
        (if \<bar>nextOffsetX - offsetX state\<bar> \<ge> OVERSCAN_SIZE / 2
         then Some (state\<lparr>offsetX := nextOffsetX\<rparr>)
         else None)
      else None)"

section \<open>The empty table\<close>

text \<open>
  React elements: a host element with its attributes and children, a component element, or
  a child that renders nothing (\<open>false\<close>).
\<close>

datatype attr = NumAttr number | IntAttr int | ClassName "string list"

datatype 'c jsx =
  Element string "(string \<times> attr) list" "'c jsx list"
| ComponentElement 'c
| Nothing

text \<open>The component shown for an empty table: the built-in one or the caller's.\<close>

datatype 'c EmptyContentComponent = DefaultEmptyContent | Custom 'c

definition Classes_tableRow :: string where
  "Classes_tableRow = ''art-table-row''"

definition Classes_tableCell :: string where
  "Classes_tableCell = ''art-table-cell''"

definition Classes_emptyWrapper :: string where
  "Classes_emptyWrapper = ''art-empty-wrapper''"

definition EmptyTable ::
  "'c EmptyContentComponent jsx \<Rightarrow> int \<Rightarrow> bool \<Rightarrow> number option \<Rightarrow> 'c option
     \<Rightarrow> 'c EmptyContentComponent jsx" where
  "EmptyTable colgroup colSpan isLoading emptyCellHeight EmptyContent =
     (let EmptyContent' = (case EmptyContent of None \<Rightarrow> DefaultEmptyContent | Some c \<Rightarrow> Custom c);
          show = \<not> isLoading
      in Element ''table'' []
           [colgroup,
            Element ''tbody'' []
              [Element ''tr''
                 [(''className'', ClassName [Classes_tableRow, ''first'', ''last'', ''no-hover'']),
                  (''data-rowindex'', IntAttr 0)]
                 [Element ''td''
                    [(''className'', ClassName [Classes_tableCell, ''first'', ''last'']),
                     (''colSpan'', IntAttr colSpan),
                     (''style.height'',
                        NumAttr (case emptyCellHeight of None \<Rightarrow> 200 | Some h \<Rightarrow> h))]
                    [if show
                     then Element ''div'' [(''className'', ClassName [Classes_emptyWrapper])]
                            [ComponentElement EmptyContent']
                     else Nothing]]]])"

text \<open>Reading an element: its tag, an attribute, its children, the components below it.\<close>

fun tagOf :: "'c jsx \<Rightarrow> string option" where
  "tagOf (Element tag attrs kids) = Some tag"
| "tagOf _ = None"

fun attrOf :: "string \<Rightarrow> 'c jsx \<Rightarrow> attr option" where
  "attrOf name (Element tag attrs kids) = map_of attrs name"
| "attrOf name _ = None"

fun childrenOf :: "'c jsx \<Rightarrow> 'c jsx list" where
  "childrenOf (Element tag attrs kids) = kids"
| "childrenOf _ = []"

fun componentsIn :: "'c jsx \<Rightarrow> 'c list" where
  "componentsIn (Element tag attrs kids) = concat (map componentsIn kids)"
| "componentsIn (ComponentElement c) = [c]"
| "componentsIn Nothing = []"

text \<open>
  The cells of the rows of a table whose children are a column group and a body, in
  that order.
\<close>

definition bodyCells :: "'c jsx \<Rightarrow> 'c jsx list" where
  "bodyCells table =
     (case childrenOf table of
        [colgroup, tbody] \<Rightarrow> concat (map childrenOf (childrenOf tbody))
      | _ \<Rightarrow> [])"

section \<open>The wording of the spec, for comparison\<close>

text \<open>
  The width of the columns at positions \<open>i\<close> up to, not including, \<open>j\<close>.
\<close>

definition runningWidth :: "'r ArtColumn list \<Rightarrow> nat \<Rightarrow> nat \<Rightarrow> number" where
  "runningWidth cols i j = widths (take (j - i) (drop i cols))"

text \<open>
  The bound the spec gives for the second accumulation:
  \<open>viewportWidth + (scrollOffsetX - leftBlank) + 2 * overscan\<close>.
\<close>

definition spec_minCenterRenderWidth :: "number \<Rightarrow> 'r BaseTableState \<Rightarrow> number" where
  "spec_minCenterRenderWidth overscan state =
     maxRenderWidth state
       + (offsetX state - leftBlank (getHorizontalRenderRange overscan state))
       + 2 * overscan"

text \<open>The bound the code uses, with the overscanned offset in place of the offset.\<close>

definition minCenterRenderWidth :: "number \<Rightarrow> 'r BaseTableState \<Rightarrow> number" where
  "minCenterRenderWidth OVERSCAN_SIZE state =
     maxRenderWidth state
       + (max 0 (offsetX state - OVERSCAN_SIZE)
            - leftBlank (getHorizontalRenderRange OVERSCAN_SIZE state))
       + 2 * OVERSCAN_SIZE"

text \<open>The spec's sample: five center columns of 50 pixels, offset 120, viewport 100.\<close>

definition sampleState :: "unit BaseTableState" where
  "sampleState =
     tableState []
       [plainColumn 50, plainColumn 50, plainColumn 50, plainColumn 50, plainColumn 50] []
       True 120 100"

text \<open>
  Twelve center columns of 50 pixels, offset 300, viewport 100, for an overscan of 100.
\<close>

definition wideState :: "unit BaseTableState" where
  "wideState =
     tableState []
       [plainColumn 50, plainColumn 50, plainColumn 50, plainColumn 50, plainColumn 50,
        plainColumn 50, plainColumn 50, plainColumn 50, plainColumn 50, plainColumn 50,
        plainColumn 50, plainColumn 50] []
       True 300 100"

text \<open>A table with one locked column on the left, two center columns and one on the right.\<close>

definition lockedState :: "unit BaseTableState" where
  "lockedState =
     tableState [plainColumn 120] [plainColumn 80, plainColumn 90] [plainColumn 60]
       False 0 800"

section \<open>The registrations the spec describes, for comparison\<close>












section \<open>Sample tables\<close>

text \<open>
  Two center columns, the first asking for \<open>rowSpan = 5\<close> in every row; ten rows, of
  which rows 8 and 9 are rendered.
\<close>

definition rowSpanColumn :: "int \<Rightarrow> unit ArtColumn" where
  "rowSpanColumn n =
     \<lparr>width = 100,
      getCellProps = Some (\<lambda>rec rowIndex. Some \<lparr>props_colSpan = None, props_rowSpan = Some n\<rparr>),
      getSpanRect = None\<rparr>"

definition spanState :: "unit BaseTableState" where
  "spanState = tableState [] [rowSpanColumn 5, plainColumn 100] [] False 0 800"

definition spanVer :: VerticalRenderRange where
  "spanVer = \<lparr>topIndex = 8, topBlank = 384, bottomIndex = 10, bottomBlank = 0\<rparr>"

definition spanHoz :: HorizontalRenderRange where
  "spanHoz = \<lparr>leftIndex = 0, leftBlank = 0, rightIndex = 2, rightBlank = 0\<rparr>"

definition spanData :: "unit list" where
  "spanData = [(), (), (), (), (), (), (), (), (), ()]"

text \<open>
  The same table with vertical virtualization on and only its last row, row 9, in the
  vertical range.
\<close>

definition lastRowState :: "unit BaseTableState" where
  "lastRowState = spanState\<lparr>useVirtual := \<lparr>horizontal = False, vertical = True, header = False\<rparr>\<rparr>"

definition lastRowVer :: VerticalRenderRange where
  "lastRowVer = \<lparr>topIndex = 9, topBlank = 432, bottomIndex = 10, bottomBlank = 0\<rparr>"

text \<open>A column asking for a \<open>colSpan\<close> in every row.\<close>

definition colSpanColumn :: "int \<Rightarrow> unit ArtColumn" where
  "colSpanColumn n =
     \<lparr>width = 100,
      getCellProps = Some (\<lambda>rec rowIndex. Some \<lparr>props_colSpan = Some n, props_rowSpan = None\<rparr>),
      getSpanRect = None\<rparr>"

text \<open>
  A viewport event with a clip rectangle of 800 by 600 at a given vertical offset; a
  table that has seen no event yet; the same table after an event at offset 0.
\<close>

definition partAt :: "number \<Rightarrow> VisiblePart" where
  "partAt y =
     \<lparr>clipRect = \<lparr>rect_top = 0, rect_bottom = 600, rect_left = 0, rect_right = 800\<rparr>,
      part_offsetY = y\<rparr>"

definition mountedTable :: "unit BaseTable" where
  "mountedTable =
     \<lparr>this_state = tableState [] [plainColumn 100] [] True 0 800, previousKey = None\<rparr>"

definition scrolledTable :: "unit BaseTable" where
  "scrolledTable = fst (onVisiblePart 100 mountedTable (partAt 0))"

section \<open>Facts about the two loops\<close>

lemma widths_take_Suc:
  "i < length cols \<Longrightarrow> widths (take (Suc i) cols) = widths (take i cols) + width (cols ! i)"
  by (simp add: widths_def take_Suc_conv_app_nth)

lemma leftLoop_step:
  "i < length cols \<Longrightarrow> width (cols ! i) + b < t
     \<Longrightarrow> leftLoop t cols i b = leftLoop t cols (i + 1) (b + width (cols ! i))"
  by (subst leftLoop.simps) (simp add: Let_def)

lemma leftLoop_halt:
  "\<not> (i < length cols \<and> width (cols ! i) + b < t) \<Longrightarrow> leftLoop t cols i b = (i, b)"
  by (subst leftLoop.simps) (auto simp: Let_def)

lemma leftLoop_bounds:
  "leftLoop t cols i b = (i', b') \<Longrightarrow> i \<le> length cols \<Longrightarrow> i \<le> i' \<and> i' \<le> length cols"
proof (induction t cols i b rule: leftLoop.induct)
  case (1 t cols i b)
  show ?case
  proof (cases "i < length cols \<and> width (cols ! i) + b < t")
    case True
    with "1.prems"(1) have "leftLoop t cols (i + 1) (b + width (cols ! i)) = (i', b')"
      by (simp add: leftLoop_step)
    with True "1.IH" show ?thesis by fastforce
  next
    case False
    with "1.prems" show ?thesis by (auto simp: leftLoop_halt)
  qed
qed

lemma leftLoop_blank:
  "leftLoop t cols i b = (i', b') \<Longrightarrow> b = widths (take i cols) \<Longrightarrow> b' = widths (take i' cols)"
proof (induction t cols i b rule: leftLoop.induct)
  case (1 t cols i b)
  show ?case
  proof (cases "i < length cols \<and> width (cols ! i) + b < t")
    case True
    with "1.prems"(1) have run: "leftLoop t cols (i + 1) (b + width (cols ! i)) = (i', b')"
      by (simp add: leftLoop_step)
    from True "1.prems"(2) have "b + width (cols ! i) = widths (take (i + 1) cols)"
      by (simp add: widths_take_Suc)
    with True run "1.IH" show ?thesis by blast
  next
    case False
    with "1.prems" show ?thesis by (auto simp: leftLoop_halt)
  qed
qed

lemma leftLoop_before:
  "leftLoop t cols i b = (i', b') \<Longrightarrow> b = widths (take i cols)
     \<Longrightarrow> \<forall>j<i. widths (take (Suc j) cols) < t
     \<Longrightarrow> \<forall>j<i'. widths (take (Suc j) cols) < t"
proof (induction t cols i b rule: leftLoop.induct)
  case (1 t cols i b)
  show ?case
  proof (cases "i < length cols \<and> width (cols ! i) + b < t")
    case True
    with "1.prems"(1) have run: "leftLoop t cols (i + 1) (b + width (cols ! i)) = (i', b')"
      by (simp add: leftLoop_step)
    from True "1.prems"(2) have blank: "b + width (cols ! i) = widths (take (i + 1) cols)"
      by (simp add: widths_take_Suc)
    with True have "widths (take (Suc i) cols) < t" by (simp add: add.commute)
    with "1.prems"(3) have "\<forall>j<i + 1. widths (take (Suc j) cols) < t"
      by (auto simp: less_Suc_eq)
    with True run blank "1.IH" show ?thesis by blast
  next
    case False
    with "1.prems" show ?thesis by (auto simp: leftLoop_halt)
  qed
qed

lemma leftLoop_stop:
  "leftLoop t cols i b = (i', b') \<Longrightarrow> b = widths (take i cols) \<Longrightarrow> i' < length cols
     \<Longrightarrow> t \<le> widths (take (Suc i') cols)"
proof (induction t cols i b rule: leftLoop.induct)
  case (1 t cols i b)
  show ?case
  proof (cases "i < length cols \<and> width (cols ! i) + b < t")
    case True
    with "1.prems"(1) have run: "leftLoop t cols (i + 1) (b + width (cols ! i)) = (i', b')"
      by (simp add: leftLoop_step)
    from True "1.prems"(2) have blank: "b + width (cols ! i) = widths (take (i + 1) cols)"
      by (simp add: widths_take_Suc)
    with True run "1.IH" "1.prems"(3) show ?thesis by blast
  next
    case False
    with "1.prems"(1) have same: "i' = i" "b' = b" by (simp_all add: leftLoop_halt)
    with "1.prems"(3) False have "\<not> width (cols ! i) + b < t" by simp
    with same "1.prems"(2,3) show ?thesis by (simp add: widths_take_Suc add.commute)
  qed
qed

lemma runningWidth_Suc:
  "j < length cols \<Longrightarrow> i \<le> j
     \<Longrightarrow> runningWidth cols i (Suc j) = runningWidth cols i j + width (cols ! j)"
  by (simp add: runningWidth_def Suc_diff_le widths_take_Suc)

lemma runningWidth_self: "runningWidth cols i i = 0"
  by (simp add: runningWidth_def widths_def)

lemma centerLoop_step:
  "i + n < length cols \<Longrightarrow> width (cols ! (i + n)) + w < t
     \<Longrightarrow> centerLoop t cols i n w = centerLoop t cols i (n + 1) (w + width (cols ! (i + n)))"
  by (subst centerLoop.simps) (simp add: Let_def)

lemma centerLoop_halt:
  "\<not> (i + n < length cols \<and> width (cols ! (i + n)) + w < t)
     \<Longrightarrow> centerLoop t cols i n w = (n, w)"
  by (subst centerLoop.simps) (auto simp: Let_def)

lemma centerLoop_bounds:
  "centerLoop t cols i n w = (n', w') \<Longrightarrow> i + n \<le> length cols
     \<Longrightarrow> n \<le> n' \<and> i + n' \<le> length cols"
proof (induction t cols i n w rule: centerLoop.induct)
  case (1 t cols i n w)
  show ?case
  proof (cases "i + n < length cols \<and> width (cols ! (i + n)) + w < t")
    case True
    with "1.prems"(1) have "centerLoop t cols i (n + 1) (w + width (cols ! (i + n))) = (n', w')"
      by (simp add: centerLoop_step)
    with True "1.IH" show ?thesis by fastforce
  next
    case False
    with "1.prems" show ?thesis by (auto simp: centerLoop_halt)
  qed
qed

lemma centerLoop_before:
  "centerLoop t cols i n w = (n', w') \<Longrightarrow> w = runningWidth cols i (i + n)
     \<Longrightarrow> \<forall>k<n. runningWidth cols i (Suc (i + k)) < t
     \<Longrightarrow> \<forall>k<n'. runningWidth cols i (Suc (i + k)) < t"
proof (induction t cols i n w rule: centerLoop.induct)
  case (1 t cols i n w)
  show ?case
  proof (cases "i + n < length cols \<and> width (cols ! (i + n)) + w < t")
    case True
    with "1.prems"(1) have run:
      "centerLoop t cols i (n + 1) (w + width (cols ! (i + n))) = (n', w')"
      by (simp add: centerLoop_step)
    from True "1.prems"(2) have acc:
      "w + width (cols ! (i + n)) = runningWidth cols i (i + (n + 1))"
      by (simp add: runningWidth_Suc)
    with True have "runningWidth cols i (Suc (i + n)) < t" by (simp add: add.commute)
    with "1.prems"(3) have "\<forall>k<n + 1. runningWidth cols i (Suc (i + k)) < t"
      by (auto simp: less_Suc_eq)
    with True run acc "1.IH" show ?thesis by blast
  next
    case False
    with "1.prems" show ?thesis by (auto simp: centerLoop_halt)
  qed
qed

lemma centerLoop_stop:
  "centerLoop t cols i n w = (n', w') \<Longrightarrow> w = runningWidth cols i (i + n)
     \<Longrightarrow> i + n' < length cols
     \<Longrightarrow> t \<le> runningWidth cols i (Suc (i + n'))"
proof (induction t cols i n w rule: centerLoop.induct)
  case (1 t cols i n w)
  show ?case
  proof (cases "i + n < length cols \<and> width (cols ! (i + n)) + w < t")
    case True
    with "1.prems"(1) have run:
      "centerLoop t cols i (n + 1) (w + width (cols ! (i + n))) = (n', w')"
      by (simp add: centerLoop_step)
    from True "1.prems"(2) have acc:
      "w + width (cols ! (i + n)) = runningWidth cols i (i + (n + 1))"
      by (simp add: runningWidth_Suc)
    with True run "1.IH" "1.prems"(3) show ?thesis by blast
  next
    case False
    with "1.prems"(1) have same: "n' = n" "w' = w" by (simp_all add: centerLoop_halt)
    with "1.prems"(3) False have "\<not> width (cols ! (i + n)) + w < t" by simp
    with same "1.prems"(2,3) show ?thesis by (simp add: runningWidth_Suc add.commute)
  qed
qed

lemma slice_from_drop: "k \<le> length xs \<Longrightarrow> slice_from (int k) xs = drop k xs"
  by (simp add: slice_from_def slice_def Let_def min_def)

lemma getHorizontalRenderRange_enabled:
  assumes "horizontal (useVirtual state)"
    and "leftLoop (max 0 (offsetX state - OVERSCAN_SIZE)) (center (flat state)) 0 0 = (li, lb)"
    and "centerLoop (maxRenderWidth state + (max 0 (offsetX state - OVERSCAN_SIZE) - lb)
            + 2 * OVERSCAN_SIZE) (center (flat state)) li 0 0 = (n, w)"
  shows "getHorizontalRenderRange OVERSCAN_SIZE state =
           \<lparr>leftIndex = li, leftBlank = lb, rightIndex = li + n,
            rightBlank = widths (drop (li + n) (center (flat state)))\<rparr>"
proof -
  from assms(2) have "li \<le> length (center (flat state))"
    using leftLoop_bounds by fastforce
  with assms(3) have "li + n \<le> length (center (flat state))"
    using centerLoop_bounds by fastforce
  then have "slice_from (int (length (center (flat state)))
               - (int (length (center (flat state))) - int li - int n)) (center (flat state))
             = drop (li + n) (center (flat state))"
    using slice_from_drop [of "li + n" "center (flat state)"] by simp
  with assms show ?thesis
    by (simp add: getHorizontalRenderRange_def Let_def sum_numbers_def widths_def)
qed


lemma sample_fields:
  "center (flat sampleState) =
     [plainColumn 50, plainColumn 50, plainColumn 50, plainColumn 50, plainColumn 50]"
  "horizontal (useVirtual sampleState)"
  "offsetX sampleState = 120"
  "maxRenderWidth sampleState = 100"
  by (simp_all add: sampleState_def tableState_def)

lemma plainColumn_width: "width (plainColumn w) = w"
  by (simp add: plainColumn_def)

lemma sample_leftLoop:
  "leftLoop 100 (center (flat sampleState)) 0 0 = (1, 50)"
  by (simp add: leftLoop.simps sampleState_def tableState_def plainColumn_def Let_def)

lemma sample_centerLoop:
  "centerLoop 190 (center (flat sampleState)) 1 0 0 = (3, 150)"
  by (simp add: centerLoop.simps sampleState_def tableState_def plainColumn_def Let_def)

lemma sample_range:
  "getHorizontalRenderRange 20 sampleState =
     \<lparr>leftIndex = 1, leftBlank = 50, rightIndex = 4, rightBlank = 50\<rparr>"
proof -
  have h: "horizontal (useVirtual sampleState)"
    by (simp add: sampleState_def tableState_def)
  have x: "max 0 (offsetX sampleState - 20) = 100" "maxRenderWidth sampleState = 100"
    by (simp_all add: sampleState_def tableState_def)
  have l: "leftLoop (max 0 (offsetX sampleState - 20)) (center (flat sampleState)) 0 0 = (1, 50)"
    using sample_leftLoop by (simp add: x)
  have c: "centerLoop (maxRenderWidth sampleState + (max 0 (offsetX sampleState - 20) - 50)
             + 2 * 20) (center (flat sampleState)) 1 0 0 = (3, 150)"
    using sample_centerLoop by (simp add: x)
  have "getHorizontalRenderRange 20 sampleState =
          \<lparr>leftIndex = 1, leftBlank = 50, rightIndex = 1 + 3,
           rightBlank = widths (drop (1 + 3) (center (flat sampleState)))\<rparr>"
    by (rule getHorizontalRenderRange_enabled [OF h l c])
  then show ?thesis
    by (simp add: widths_def sampleState_def tableState_def plainColumn_def)
qed

lemma wide_fields:
  "center (flat wideState) =
     [plainColumn 50, plainColumn 50, plainColumn 50, plainColumn 50, plainColumn 50,
      plainColumn 50, plainColumn 50, plainColumn 50, plainColumn 50, plainColumn 50,
      plainColumn 50, plainColumn 50]"
  "horizontal (useVirtual wideState)"
  "offsetX wideState = 300"
  "maxRenderWidth wideState = 100"
  by (simp_all add: wideState_def tableState_def)

lemma wide_leftLoop:
  "leftLoop 200 (center (flat wideState)) 0 0 = (3, 150)"
  by (simp add: leftLoop.simps wide_fields plainColumn_width Let_def)

lemma wide_centerLoop:
  "centerLoop 350 (center (flat wideState)) 3 0 0 = (6, 300)"
  by (simp add: centerLoop.simps wide_fields plainColumn_width Let_def)

lemma wide_range:
  "getHorizontalRenderRange 100 wideState =
     \<lparr>leftIndex = 3, leftBlank = 150, rightIndex = 9, rightBlank = 150\<rparr>"
proof -
  have x: "max 0 (offsetX wideState - 100) = 200" "maxRenderWidth wideState = 100"
    by (simp_all add: wide_fields)
  have l: "leftLoop (max 0 (offsetX wideState - 100)) (center (flat wideState)) 0 0 = (3, 150)"
    using wide_leftLoop by (simp add: x)
  have c: "centerLoop (maxRenderWidth wideState + (max 0 (offsetX wideState - 100) - 150)
             + 2 * 100) (center (flat wideState)) 3 0 0 = (6, 300)"
    using wide_centerLoop by (simp add: x)
  have "getHorizontalRenderRange 100 wideState =
          \<lparr>leftIndex = 3, leftBlank = 150, rightIndex = 3 + 6,
           rightBlank = widths (drop (3 + 6) (center (flat wideState)))\<rparr>"
    by (rule getHorizontalRenderRange_enabled [OF wide_fields(2) l c])
  then show ?thesis
    by (simp add: widths_def wide_fields plainColumn_width)
qed

lemma widths_append: "widths (xs @ ys) = widths xs + widths ys"
  by (simp add: widths_def)

lemma widths_split3:
  "widths cols = widths (take i cols) + widths (take n (drop i cols)) + widths (drop (i + n) cols)"
proof -
  have "take i cols @ take n (drop i cols) @ drop n (drop i cols) = cols"
    by (simp only: append_take_drop_id)
  then have "widths cols
      = widths (take i cols @ take n (drop i cols) @ drop n (drop i cols))"
    by (rule arg_cong [where f = widths, symmetric])
  then show ?thesis
    by (simp only: widths_append drop_drop add.commute [of n i] add.assoc)
qed

lemma enabled_range_cases:
  assumes "horizontal (useVirtual state)"
  obtains li lb n w where
    "leftLoop (max 0 (offsetX state - OVERSCAN_SIZE)) (center (flat state)) 0 0 = (li, lb)"
    "centerLoop (maxRenderWidth state + (max 0 (offsetX state - OVERSCAN_SIZE) - lb)
       + 2 * OVERSCAN_SIZE) (center (flat state)) li 0 0 = (n, w)"
    "getHorizontalRenderRange OVERSCAN_SIZE state =
       \<lparr>leftIndex = li, leftBlank = lb, rightIndex = li + n,
        rightBlank = widths (drop (li + n) (center (flat state)))\<rparr>"
    "li \<le> length (center (flat state))" "li + n \<le> length (center (flat state))"
proof -
  obtain li lb where l:
    "leftLoop (max 0 (offsetX state - OVERSCAN_SIZE)) (center (flat state)) 0 0 = (li, lb)"
    by (cases "leftLoop (max 0 (offsetX state - OVERSCAN_SIZE)) (center (flat state)) 0 0")
  obtain n w where c:
    "centerLoop (maxRenderWidth state + (max 0 (offsetX state - OVERSCAN_SIZE) - lb)
       + 2 * OVERSCAN_SIZE) (center (flat state)) li 0 0 = (n, w)"
    by (cases "centerLoop (maxRenderWidth state + (max 0 (offsetX state - OVERSCAN_SIZE) - lb)
       + 2 * OVERSCAN_SIZE) (center (flat state)) li 0 0")
  from l have b1: "li \<le> length (center (flat state))"
    using leftLoop_bounds by fastforce
  with c have b2: "li + n \<le> length (center (flat state))"
    using centerLoop_bounds by fastforce
  from that [OF l c getHorizontalRenderRange_enabled [OF assms l c] b1 b2] show thesis .
qed

section \<open>The horizontal render range: claims\<close>

subsection \<open>C1: bounds of the horizontal render range\<close>

text \<open>
  Claim C1, as amended. The range that \<open>getHorizontalRenderRange\<close> returns satisfies
  \<open>0 \<le> leftIndex \<le> rightIndex\<close> in both branches. With horizontal virtualization enabled
  \<open>rightIndex\<close> is at most the number of center columns; with it disabled \<open>rightIndex\<close> is
  at most (in fact equal to) the number of all flat columns, locked ones included.
\<close>

theorem horizontal_range_bounds:
  "0 \<le> leftIndex (getHorizontalRenderRange OVERSCAN_SIZE state)
   \<and> leftIndex (getHorizontalRenderRange OVERSCAN_SIZE state)
       \<le> rightIndex (getHorizontalRenderRange OVERSCAN_SIZE state)
   \<and> rightIndex (getHorizontalRenderRange OVERSCAN_SIZE state)
       \<le> (if horizontal (useVirtual state) then length (center (flat state))
           else length (full (flat state)))"
proof (cases "horizontal (useVirtual state)")
  case False
  then show ?thesis by (simp add: getHorizontalRenderRange_def)
next
  case True
  then obtain li lb n where
    "getHorizontalRenderRange OVERSCAN_SIZE state =
       \<lparr>leftIndex = li, leftBlank = lb, rightIndex = li + n,
        rightBlank = widths (drop (li + n) (center (flat state)))\<rparr>"
    and "li + n \<le> length (center (flat state))"
    by (rule enabled_range_cases)
  with True show ?thesis by simp
qed

text \<open>
  C1 as stated fails in the disabled branch once a column is locked: with one locked
  column on the left and two center columns, \<open>rightIndex\<close> is 3, above the center count 2.
\<close>

theorem horizontal_range_bounds_counterexample:
  "\<not> rightIndex (getHorizontalRenderRange 100
        (tableState [plainColumn 120] [plainColumn 80, plainColumn 90] [] False 0 800
           :: unit BaseTableState))
      \<le> length (center (flat (tableState [plainColumn 120] [plainColumn 80, plainColumn 90] []
            False 0 800 :: unit BaseTableState)))"
  by (simp add: getHorizontalRenderRange_def tableState_def)


subsection \<open>C4: the range without horizontal virtualization\<close>

text \<open>
  Claim C4, as amended. When horizontal virtualization is disabled,
  \<open>getHorizontalRenderRange\<close> returns exactly \<open>leftIndex = 0\<close>, \<open>leftBlank = 0\<close>,
  \<open>rightIndex = flat.full.length\<close> (the count of all flat columns: left, center and right
  groups together) and \<open>rightBlank = 0\<close>.
\<close>

theorem disabled_range_is_full:
  "\<not> horizontal (useVirtual state)
   \<Longrightarrow> getHorizontalRenderRange OVERSCAN_SIZE state =
         \<lparr>leftIndex = 0, leftBlank = 0, rightIndex = length (full (flat state)), rightBlank = 0\<rparr>"
  by (simp add: getHorizontalRenderRange_def)

text \<open>The table with locked columns on both sides: four flat columns, so \<open>rightIndex = 4\<close>.\<close>

theorem disabled_range_is_full_witness:
  "\<not> horizontal (useVirtual lockedState)
   \<and> getHorizontalRenderRange 100 lockedState =
         \<lparr>leftIndex = 0, leftBlank = 0, rightIndex = 4, rightBlank = 0\<rparr>"
  using disabled_range_is_full [of lockedState 100]
  by (simp add: lockedState_def tableState_def)

text \<open>
  C4 as stated fails on that table: the range returned is not the one whose \<open>rightIndex\<close>
  is the number of center columns.
\<close>

theorem disabled_range_counterexample:
  "getHorizontalRenderRange 100 lockedState \<noteq>
     \<lparr>leftIndex = 0, leftBlank = 0, rightIndex = length (center (flat lockedState)),
      rightBlank = 0\<rparr>"
  by (simp add: getHorizontalRenderRange_def lockedState_def tableState_def)

subsection \<open>The widths of a range, in exact arithmetic\<close>

text \<open>
  With exact sums the left blank, the widths of the columns in \<open>[leftIndex, rightIndex)\<close>
  and the right blank add up to the sum of all center column widths. The code adds
  doubles, in another order on each side of this equation, and each addition may round;
  the lemma is a fact about the exact sums and not about the values the code computes.
\<close>

lemma exact_width_conservation:
  assumes "horizontal (useVirtual state)"
  shows "leftBlank (getHorizontalRenderRange OVERSCAN_SIZE state)
         + runningWidth (center (flat state))
             (leftIndex (getHorizontalRenderRange OVERSCAN_SIZE state))
             (rightIndex (getHorizontalRenderRange OVERSCAN_SIZE state))
         + rightBlank (getHorizontalRenderRange OVERSCAN_SIZE state)
         = widths (center (flat state))"
proof -
  from assms obtain li lb n where
    l: "leftLoop (max 0 (offsetX state - OVERSCAN_SIZE)) (center (flat state)) 0 0 = (li, lb)"
    and r: "getHorizontalRenderRange OVERSCAN_SIZE state =
       \<lparr>leftIndex = li, leftBlank = lb, rightIndex = li + n,
        rightBlank = widths (drop (li + n) (center (flat state)))\<rparr>"
    by (rule enabled_range_cases)
  from l have "lb = widths (take li (center (flat state)))"
    by (rule leftLoop_blank) (simp add: widths_def)
  with r show ?thesis
    using widths_split3 [of "center (flat state)" li n]
    by (simp add: runningWidth_def)
qed

subsection \<open>C3: the left index\<close>

text \<open>
  Claim C3, as amended. With horizontal virtualization enabled, \<open>leftIndex\<close> is the first
  center column whose trailing edge (the cumulative width including that column) reaches
  \<open>max(0, scrollOffsetX - overscan)\<close>, or the number of center columns when no trailing
  edge reaches it, and \<open>leftBlank\<close> is the accumulated width of the columns before it. In
  particular, for the center widths \<open>[50,50,50,50,50]\<close>, \<open>viewportWidth = 100\<close>,
  \<open>scrollOffsetX = 120\<close> and \<open>overscan = 20\<close>, \<open>leftIndex\<close> is the first column whose
  trailing edge is at least 100, which is index 1, and \<open>leftBlank\<close> is 50.
\<close>

theorem left_index_first_reaching:
  "(horizontal (useVirtual state) \<longrightarrow>
      leftIndex (getHorizontalRenderRange OVERSCAN_SIZE state) \<le> length (center (flat state))
      \<and> leftBlank (getHorizontalRenderRange OVERSCAN_SIZE state)
          = widths (take (leftIndex (getHorizontalRenderRange OVERSCAN_SIZE state))
              (center (flat state)))
      \<and> (\<forall>i < leftIndex (getHorizontalRenderRange OVERSCAN_SIZE state).
            widths (take (Suc i) (center (flat state))) < max 0 (offsetX state - OVERSCAN_SIZE))
      \<and> (leftIndex (getHorizontalRenderRange OVERSCAN_SIZE state) < length (center (flat state))
          \<longrightarrow> max 0 (offsetX state - OVERSCAN_SIZE)
                \<le> widths (take (Suc (leftIndex (getHorizontalRenderRange OVERSCAN_SIZE state)))
                     (center (flat state)))))
   \<and> leftIndex (getHorizontalRenderRange 20 sampleState) = 1
   \<and> leftBlank (getHorizontalRenderRange 20 sampleState) = 50"
proof (intro conjI impI)
  assume h: "horizontal (useVirtual state)"
  let ?cols = "center (flat state)"
  let ?t = "max 0 (offsetX state - OVERSCAN_SIZE)"
  from h obtain li lb n where
    l: "leftLoop ?t ?cols 0 0 = (li, lb)"
    and r: "getHorizontalRenderRange OVERSCAN_SIZE state =
       \<lparr>leftIndex = li, leftBlank = lb, rightIndex = li + n,
        rightBlank = widths (drop (li + n) ?cols)\<rparr>"
    and b: "li \<le> length ?cols"
    by (rule enabled_range_cases)
  have z: "(0::number) = widths (take 0 ?cols)" by (simp add: widths_def)
  from b r show "leftIndex (getHorizontalRenderRange OVERSCAN_SIZE state) \<le> length ?cols"
    by simp
  from leftLoop_blank [OF l z] r
  show "leftBlank (getHorizontalRenderRange OVERSCAN_SIZE state)
          = widths (take (leftIndex (getHorizontalRenderRange OVERSCAN_SIZE state)) ?cols)"
    by simp
  from leftLoop_before [OF l z] r
  show "\<forall>i < leftIndex (getHorizontalRenderRange OVERSCAN_SIZE state).
          widths (take (Suc i) ?cols) < ?t"
    by simp
  assume "leftIndex (getHorizontalRenderRange OVERSCAN_SIZE state) < length ?cols"
  with r have "li < length ?cols" by simp
  from leftLoop_stop [OF l z this] r
  show "?t \<le> widths (take (Suc (leftIndex (getHorizontalRenderRange OVERSCAN_SIZE state))) ?cols)"
    by simp
next
  show "leftIndex (getHorizontalRenderRange 20 sampleState) = 1"
    by (simp add: sample_range)
  show "leftBlank (getHorizontalRenderRange 20 sampleState) = 50"
    by (simp add: sample_range)
qed

text \<open>
  On the sample the hypothesis holds, column 0 ends at 50, below 100, and column 1 ends
  at 100.
\<close>

theorem left_index_first_reaching_witness:
  "horizontal (useVirtual sampleState)
   \<and> leftIndex (getHorizontalRenderRange 20 sampleState) = 1
   \<and> leftBlank (getHorizontalRenderRange 20 sampleState)
       = widths (take 1 (center (flat sampleState)))
   \<and> widths (take 1 (center (flat sampleState))) < max 0 (offsetX sampleState - 20)
   \<and> max 0 (offsetX sampleState - 20) \<le> widths (take 2 (center (flat sampleState)))"
  using left_index_first_reaching [of sampleState 20]
  by (simp add: sample_range sample_fields widths_def plainColumn_width)

text \<open>C3 as stated names index 2 for the sample; the code returns index 1.\<close>

theorem left_index_sample_counterexample:
  "leftIndex (getHorizontalRenderRange 20 sampleState) \<noteq> 2"
  by (simp add: sample_range)

subsection \<open>C2: the right index and the right blank\<close>

text \<open>
  Claim C2, as amended. With horizontal virtualization enabled, after \<open>leftIndex\<close> and
  \<open>leftBlank\<close> are fixed, columns are accumulated from \<open>leftIndex\<close> against the bound
  \<open>viewportWidth + (max(0, scrollOffsetX - overscan) - leftBlank) + 2 * overscan\<close>: no
  further column is taken once the columns already taken have reached the bound, and the
  accumulation does not stop while columns remain and the running width with the next
  column included is still below the bound. The stopping point is \<open>rightIndex\<close>, and
  \<open>rightBlank\<close> equals the sum of the widths of the remaining center columns, those from
  \<open>rightIndex\<close> on. Whether the column that crosses the bound is taken is left open.
\<close>

theorem right_index_against_bound:
  assumes "horizontal (useVirtual state)"
  shows "leftIndex (getHorizontalRenderRange OVERSCAN_SIZE state)
           \<le> rightIndex (getHorizontalRenderRange OVERSCAN_SIZE state)
     \<and> rightIndex (getHorizontalRenderRange OVERSCAN_SIZE state) \<le> length (center (flat state))
     \<and> (\<forall>j. leftIndex (getHorizontalRenderRange OVERSCAN_SIZE state) < j
            \<and> j < rightIndex (getHorizontalRenderRange OVERSCAN_SIZE state)
          \<longrightarrow> runningWidth (center (flat state))
                (leftIndex (getHorizontalRenderRange OVERSCAN_SIZE state)) j
              < minCenterRenderWidth OVERSCAN_SIZE state)
     \<and> (rightIndex (getHorizontalRenderRange OVERSCAN_SIZE state) < length (center (flat state))
          \<longrightarrow> minCenterRenderWidth OVERSCAN_SIZE state
              \<le> runningWidth (center (flat state))
                  (leftIndex (getHorizontalRenderRange OVERSCAN_SIZE state))
                  (Suc (rightIndex (getHorizontalRenderRange OVERSCAN_SIZE state))))
     \<and> rightBlank (getHorizontalRenderRange OVERSCAN_SIZE state)
         = widths (drop (rightIndex (getHorizontalRenderRange OVERSCAN_SIZE state))
             (center (flat state)))"
proof -
  let ?cols = "center (flat state)"
  let ?t = "max 0 (offsetX state - OVERSCAN_SIZE)"
  from assms obtain li lb n w where
    c: "centerLoop (maxRenderWidth state + (?t - lb) + 2 * OVERSCAN_SIZE) ?cols li 0 0 = (n, w)"
    and r: "getHorizontalRenderRange OVERSCAN_SIZE state =
       \<lparr>leftIndex = li, leftBlank = lb, rightIndex = li + n,
        rightBlank = widths (drop (li + n) ?cols)\<rparr>"
    and b: "li + n \<le> length ?cols"
    by (rule enabled_range_cases)
  from r have m: "minCenterRenderWidth OVERSCAN_SIZE state
      = maxRenderWidth state + (?t - lb) + 2 * OVERSCAN_SIZE"
    by (simp add: minCenterRenderWidth_def)
  have z: "(0::number) = runningWidth ?cols li (li + 0)"
    by (simp add: runningWidth_self)
  have before: "\<forall>k<n. runningWidth ?cols li (Suc (li + k))
      < maxRenderWidth state + (?t - lb) + 2 * OVERSCAN_SIZE"
    using centerLoop_before [OF c z] by simp
  have taken: "runningWidth ?cols li j < minCenterRenderWidth OVERSCAN_SIZE state"
    if "li < j" "j < li + n" for j
  proof -
    from that have k: "j - Suc li < n" and j: "Suc (li + (j - Suc li)) = j" by simp_all
    from before k have "runningWidth ?cols li (Suc (li + (j - Suc li)))
        < maxRenderWidth state + (?t - lb) + 2 * OVERSCAN_SIZE"
      by blast
    then show ?thesis unfolding j m .
  qed
  have stop: "minCenterRenderWidth OVERSCAN_SIZE state \<le> runningWidth ?cols li (Suc (li + n))"
    if "li + n < length ?cols"
    using centerLoop_stop [OF c z that] m by simp
  from r b taken stop show ?thesis by simp
qed

text \<open>
  On the spec's sample the bound is 190: after the columns 1 and 2 the width is 50 and
  100, and with column 4 it would be 200, so the accumulation stops at 4 or at 5.
\<close>

theorem right_index_against_bound_witness:
  "horizontal (useVirtual sampleState)
   \<and> leftIndex (getHorizontalRenderRange 20 sampleState) = 1
   \<and> rightIndex (getHorizontalRenderRange 20 sampleState) = 4
   \<and> minCenterRenderWidth 20 sampleState = 190
   \<and> runningWidth (center (flat sampleState)) 1 2 < 190
   \<and> runningWidth (center (flat sampleState)) 1 3 < 190
   \<and> 190 \<le> runningWidth (center (flat sampleState)) 1 5
   \<and> rightBlank (getHorizontalRenderRange 20 sampleState)
       = widths (drop 4 (center (flat sampleState)))"
  using right_index_against_bound [of sampleState 20]
  by (simp add: sample_range sample_fields minCenterRenderWidth_def runningWidth_def widths_def
        plainColumn_width)

text \<open>
  C2 as stated fails on twelve columns of 50 with offset 300, viewport 100 and overscan
  100. The bound of the claim is \<open>100 + (300 - 150) + 200 = 450\<close>, yet the accumulation
  stops at \<open>rightIndex = 9\<close> with three columns left over, where the running width is 300;
  with one more column it would be 350 and with two more 400, still short of 450.
\<close>

theorem right_index_spec_bound_counterexample:
  "rightIndex (getHorizontalRenderRange 100 wideState) = 9
   \<and> length (center (flat wideState)) = 12
   \<and> spec_minCenterRenderWidth 100 wideState = 450
   \<and> runningWidth (center (flat wideState))
        (leftIndex (getHorizontalRenderRange 100 wideState)) 9 = 300
   \<and> runningWidth (center (flat wideState))
        (leftIndex (getHorizontalRenderRange 100 wideState)) 10 = 350
   \<and> runningWidth (center (flat wideState))
        (leftIndex (getHorizontalRenderRange 100 wideState)) 11 = 400"
  by (simp add: wide_range wide_fields spec_minCenterRenderWidth_def runningWidth_def
        widths_def plainColumn_width)

text \<open>
  Beside the claim: the loop takes a column only while the width with that column stays
  below the bound, so what it takes always stays below the bound, which the source's
  comment on the bound calls the least width the center columns have to render. On the
  spec's sample the rendered columns end at 200 pixels and the viewport at 220.
\<close>

lemma rendered_width_below_bound:
  assumes "horizontal (useVirtual state)"
    and "leftIndex (getHorizontalRenderRange OVERSCAN_SIZE state)
           < rightIndex (getHorizontalRenderRange OVERSCAN_SIZE state)"
  shows "runningWidth (center (flat state))
           (leftIndex (getHorizontalRenderRange OVERSCAN_SIZE state))
           (rightIndex (getHorizontalRenderRange OVERSCAN_SIZE state))
         < minCenterRenderWidth OVERSCAN_SIZE state"
proof -
  let ?cols = "center (flat state)"
  let ?t = "max 0 (offsetX state - OVERSCAN_SIZE)"
  from assms(1) obtain li lb n w where
    c: "centerLoop (maxRenderWidth state + (?t - lb) + 2 * OVERSCAN_SIZE) ?cols li 0 0 = (n, w)"
    and r: "getHorizontalRenderRange OVERSCAN_SIZE state =
       \<lparr>leftIndex = li, leftBlank = lb, rightIndex = li + n,
        rightBlank = widths (drop (li + n) ?cols)\<rparr>"
    by (rule enabled_range_cases)
  from r have m: "minCenterRenderWidth OVERSCAN_SIZE state
      = maxRenderWidth state + (?t - lb) + 2 * OVERSCAN_SIZE"
    by (simp add: minCenterRenderWidth_def)
  have z: "(0::number) = runningWidth ?cols li (li + 0)"
    by (simp add: runningWidth_self)
  have before: "\<forall>k<n. runningWidth ?cols li (Suc (li + k))
      < maxRenderWidth state + (?t - lb) + 2 * OVERSCAN_SIZE"
    using centerLoop_before [OF c z] by simp
  from assms(2) r have pos: "n - 1 < n" and last: "Suc (li + (n - 1)) = li + n"
    by simp_all
  from before pos have "runningWidth ?cols li (Suc (li + (n - 1)))
      < maxRenderWidth state + (?t - lb) + 2 * OVERSCAN_SIZE"
    by blast
  then have "runningWidth ?cols li (li + n) < minCenterRenderWidth OVERSCAN_SIZE state"
    unfolding last m .
  with r show ?thesis by simp
qed

lemma sample_rendered_short_of_viewport:
  "leftBlank (getHorizontalRenderRange 20 sampleState)
     + runningWidth (center (flat sampleState))
         (leftIndex (getHorizontalRenderRange 20 sampleState))
         (rightIndex (getHorizontalRenderRange 20 sampleState)) = 200
   \<and> offsetX sampleState + maxRenderWidth sampleState = 220"
  by (simp add: sample_range sample_fields runningWidth_def widths_def plainColumn_width)

section \<open>Facts about a render pass\<close>


































section \<open>Spans in a render pass: claims\<close>

subsection \<open>C7: which cells are registered\<close>



subsection \<open>C5: clamping of the spans\<close>

text \<open>
  Claim C5 says that the spans of every rendered cell are clamped to
  \<open>min(rowSpan, bottomIndex - rowIndex)\<close> and to the count of rendered columns from its
  column on, so that the rendered extent never exceeds the render range. The code does
  not do this for a cell whose clamped spans are both at most 1: it then writes no
  clamped span, and the \<open>td\<close> keeps the spans spread from the cell properties. On the
  sample table with only row 9 in the range (\<open>bottomIndex = 10\<close>), the cell (9, 0) asks for
  \<open>rowSpan = 5\<close>; the clamped spans are (1, 1), nothing is registered, and the \<open>td\<close>
  carries \<open>rowSpan = 5\<close>, four rows past \<open>bottomIndex\<close>.
\<close>

theorem td_keeps_unclamped_rowSpan:
  "renderTableBody lastRowState spanData lastRowVer spanHoz =
     ([\<lparr>data_rowindex = 9,
        children = [Cell (Some \<lparr>key = 0, td_colSpan = None, td_rowSpan = Some 5\<rparr>),
                    Cell (Some \<lparr>key = 1, td_colSpan = None, td_rowSpan = None\<rparr>)]\<rparr>],
      newPass)
   \<and> requestedSpan (rowSpanColumn 5) () 9 0 = (1, 5)
   \<and> effectiveSpan lastRowVer spanHoz 0 () 9 (rowSpanColumn 5) 0 = (1, 1)
   \<and> int (bottomIndex lastRowVer) < 9 + 5
   \<and> getHorizontalRenderRange 100 lastRowState = spanHoz"
  by (simp add: renderTableBody_def getFlatHozWrappedCols_def renderRow_def renderCell_def
        effectiveSpan_def clampSpan_def requestedSpan_def cellPropsOf_def
        rowSpanColumn_def plainColumn_def lastRowState_def spanState_def tableState_def
        lastRowVer_def spanHoz_def spanData_def SpanManager_testSkip_def
        SpanManager_stripUpwards_def SpanManager_add_def slice_def newPass_def
        getHorizontalRenderRange_def Let_def)

text \<open>
  The clamped spans themselves are the two minima of the source, and the extent they
  give stays within \<open>bottomIndex\<close> and within \<open>leftFlatCount + rightIndex\<close>; a cell with a
  clamped span above 1 is registered with them and its \<open>td\<close> carries them.
\<close>

lemma effectiveSpan_clamped:
  "snd (effectiveSpan ver hoz leftFlatCount rec rowIndex column colIndex)
     = min (snd (requestedSpan column rec rowIndex colIndex)) (int (bottomIndex ver) - rowIndex)
   \<and> fst (effectiveSpan ver hoz leftFlatCount rec rowIndex column colIndex)
     = min (fst (requestedSpan column rec rowIndex colIndex))
         (int leftFlatCount + int (rightIndex hoz) - colIndex)
   \<and> rowIndex + snd (effectiveSpan ver hoz leftFlatCount rec rowIndex column colIndex)
       \<le> int (bottomIndex ver)
   \<and> colIndex + fst (effectiveSpan ver hoz leftFlatCount rec rowIndex column colIndex)
       \<le> int leftFlatCount + int (rightIndex hoz)
   \<and> (\<forall>td pass'.
         renderCell ver hoz leftFlatCount pass rec rowIndex column colIndex = (Some td, pass')
         \<and> (fst (effectiveSpan ver hoz leftFlatCount rec rowIndex column colIndex) > 1
            \<or> snd (effectiveSpan ver hoz leftFlatCount rec rowIndex column colIndex) > 1)
         \<longrightarrow> td_colSpan td
               = Some (fst (effectiveSpan ver hoz leftFlatCount rec rowIndex column colIndex))
           \<and> td_rowSpan td
               = Some (snd (effectiveSpan ver hoz leftFlatCount rec rowIndex column colIndex))
           \<and> addCalls pass' = addCalls pass
               @ [(rowIndex, colIndex,
                   fst (effectiveSpan ver hoz leftFlatCount rec rowIndex column colIndex),
                   snd (effectiveSpan ver hoz leftFlatCount rec rowIndex column colIndex))])
   \<and> snd (requestedSpan (rowSpanColumn 5) () 8 0) = 5
   \<and> snd (effectiveSpan spanVer spanHoz 0 () 8 (rowSpanColumn 5) 0) = 2"
proof -
  let ?eff = "effectiveSpan ver hoz leftFlatCount rec rowIndex column colIndex"
  let ?req = "requestedSpan column rec rowIndex colIndex"
  have clamp: "?eff
      = (min (fst ?req) (int leftFlatCount + int (rightIndex hoz) - colIndex),
         min (snd ?req) (int (bottomIndex ver) - rowIndex))"
    by (simp add: effectiveSpan_def clampSpan_def Let_def split: prod.splits)
  have rows: "snd ?eff = min (snd ?req) (int (bottomIndex ver) - rowIndex)"
    by (simp add: clamp)
  have cols: "fst ?eff = min (fst ?req) (int leftFlatCount + int (rightIndex hoz) - colIndex)"
    by (simp add: clamp)
  have below: "rowIndex + snd ?eff \<le> int (bottomIndex ver)"
    unfolding rows by simp
  have within: "colIndex + fst ?eff \<le> int leftFlatCount + int (rightIndex hoz)"
    unfolding cols by simp
  have cell: "\<forall>td pass'.
         renderCell ver hoz leftFlatCount pass rec rowIndex column colIndex = (Some td, pass')
         \<and> (fst ?eff > 1 \<or> snd ?eff > 1)
         \<longrightarrow> td_colSpan td = Some (fst ?eff)
           \<and> td_rowSpan td = Some (snd ?eff)
           \<and> addCalls pass' = addCalls pass @ [(rowIndex, colIndex, fst ?eff, snd ?eff)]"
    by (auto simp: renderCell_def Let_def split: if_splits prod.splits)
  have sample: "snd (requestedSpan (rowSpanColumn 5) () 8 0) = 5"
    "snd (effectiveSpan spanVer spanHoz 0 () 8 (rowSpanColumn 5) 0) = 2"
    by (simp_all add: effectiveSpan_def clampSpan_def requestedSpan_def cellPropsOf_def
          rowSpanColumn_def spanVer_def Let_def)
  show ?thesis
    by (intro conjI)
       (rule rows, rule cols, rule below, rule within, rule cell, rule sample(1),
        rule sample(2))
qed

text \<open>
  When neither clamped span is above 1, nothing is registered and the \<open>td\<close> keeps the
  span attributes of the cell properties as they are.
\<close>

lemma renderCell_without_span:
  assumes "renderCell ver hoz leftFlatCount pass rec rowIndex column colIndex = (Some td, pass')"
    and "\<not> (fst (effectiveSpan ver hoz leftFlatCount rec rowIndex column colIndex) > 1
            \<or> snd (effectiveSpan ver hoz leftFlatCount rec rowIndex column colIndex) > 1)"
  shows "pass' = pass
     \<and> td_colSpan td = props_colSpan (cellPropsOf column rec rowIndex)
     \<and> td_rowSpan td = props_rowSpan (cellPropsOf column rec rowIndex)"
  using assms by (auto simp: renderCell_def Let_def split: if_splits prod.splits)

text \<open>
  The bound on \<open>colSpan\<close> is not the count of rendered columns from the cell's column on.
  Without horizontal virtualization \<open>rightIndex\<close> counts all flat columns: with one locked
  column on the left of four, a cell in column 1 that asks for 9 columns is clamped to 4,
  with 3 columns left. With horizontal virtualization, for a column locked on the right
  the bound is zero or negative: with one locked column on each side of two center
  columns and \<open>rightIndex = 1\<close>, a cell in column 3 that asks for nothing gets -1.
\<close>

lemma colSpan_bound_is_not_the_rendered_count:
  "effectiveSpan ver \<lparr>leftIndex = 0, leftBlank = 0, rightIndex = 4, rightBlank = 0\<rparr> 1 () 0
     (colSpanColumn 9) 1 = (4, min 1 (int (bottomIndex ver)))"
  "fst (effectiveSpan ver \<lparr>leftIndex = 0, leftBlank = 0, rightIndex = 1, rightBlank = 90\<rparr> 1 () 0
     (plainColumn 60) 3) = - 1"
  by (simp_all add: effectiveSpan_def clampSpan_def requestedSpan_def cellPropsOf_def
        colSpanColumn_def plainColumn_def Let_def)

section \<open>Viewport updates: claims\<close>

subsection \<open>C6: the threshold of half the overscan\<close>

text \<open>
  Claim C6, as amended. While horizontal or vertical virtualization is on, a viewport
  event triggers no state update when its \<open>offsetY\<close>, \<open>maxRenderWidth\<close> and
  \<open>maxRenderHeight\<close> each differ by less than \<open>overscan / 2\<close> from those of the last event
  that did trigger an update; when one of the three differs from that event by at least
  \<open>overscan / 2\<close>, or no event has triggered an update yet, the update passes through
  and the event becomes the new reference. With both virtualizations off no event
  triggers an update. The same threshold gates \<open>offsetX\<close>: with horizontal virtualization
  on, \<open>updateOffsetX\<close> updates the state exactly when the new offset differs from
  \<open>state.offsetX\<close> by at least \<open>overscan / 2\<close>, and never with it off.
\<close>

theorem viewport_hysteresis:
  "(horizontal (useVirtual (this_state table)) \<or> vertical (useVirtual (this_state table)) \<longrightarrow>
      (previousKey table = None \<longrightarrow>
         onVisiblePart OVERSCAN_SIZE table part =
           (table\<lparr>this_state := setState_sizeAndOffset (this_state table) (sizeAndOffsetOf part),
                  previousKey := Some (sizeAndOffsetOf part)\<rparr>,
            Some (sizeAndOffsetOf part)))
      \<and> (\<forall>k. previousKey table = Some k \<longrightarrow>
            (\<bar>next_offsetY (sizeAndOffsetOf part) - next_offsetY k\<bar> < OVERSCAN_SIZE / 2
             \<and> \<bar>next_maxRenderWidth (sizeAndOffsetOf part) - next_maxRenderWidth k\<bar>
                 < OVERSCAN_SIZE / 2
             \<and> \<bar>next_maxRenderHeight (sizeAndOffsetOf part) - next_maxRenderHeight k\<bar>
                 < OVERSCAN_SIZE / 2
             \<longrightarrow> onVisiblePart OVERSCAN_SIZE table part = (table, None))
            \<and> (\<bar>next_offsetY (sizeAndOffsetOf part) - next_offsetY k\<bar> \<ge> OVERSCAN_SIZE / 2
               \<or> \<bar>next_maxRenderWidth (sizeAndOffsetOf part) - next_maxRenderWidth k\<bar>
                   \<ge> OVERSCAN_SIZE / 2
               \<or> \<bar>next_maxRenderHeight (sizeAndOffsetOf part) - next_maxRenderHeight k\<bar>
                   \<ge> OVERSCAN_SIZE / 2
               \<longrightarrow> onVisiblePart OVERSCAN_SIZE table part =
                     (table\<lparr>this_state :=
                              setState_sizeAndOffset (this_state table) (sizeAndOffsetOf part),
                            previousKey := Some (sizeAndOffsetOf part)\<rparr>,
                      Some (sizeAndOffsetOf part)))))
   \<and> (\<not> (horizontal (useVirtual (this_state table)) \<or> vertical (useVirtual (this_state table)))
        \<longrightarrow> onVisiblePart OVERSCAN_SIZE table part = (table, None))
   \<and> (horizontal (useVirtual state) \<longrightarrow>
        updateOffsetX OVERSCAN_SIZE state nextOffsetX =
          (if \<bar>nextOffsetX - offsetX state\<bar> < OVERSCAN_SIZE / 2 then None
           else Some (state\<lparr>offsetX := nextOffsetX\<rparr>)))
   \<and> (\<not> horizontal (useVirtual state) \<longrightarrow> updateOffsetX OVERSCAN_SIZE state nextOffsetX = None)"
proof -
  let ?v = "sizeAndOffsetOf part"
  let ?on = "horizontal (useVirtual (this_state table)) \<or> vertical (useVirtual (this_state table))"
  have first: "onVisiblePart OVERSCAN_SIZE table part =
           (table\<lparr>this_state := setState_sizeAndOffset (this_state table) ?v,
                  previousKey := Some ?v\<rparr>, Some ?v)"
    if "?on" "previousKey table = None"
    using that by (simp add: onVisiblePart_def distinctUntilChanged_def)
  have near: "onVisiblePart OVERSCAN_SIZE table part = (table, None)"
    if "?on" "previousKey table = Some k"
      "\<bar>next_offsetY ?v - next_offsetY k\<bar> < OVERSCAN_SIZE / 2
       \<and> \<bar>next_maxRenderWidth ?v - next_maxRenderWidth k\<bar> < OVERSCAN_SIZE / 2
       \<and> \<bar>next_maxRenderHeight ?v - next_maxRenderHeight k\<bar> < OVERSCAN_SIZE / 2" for k
  proof -
    from that(3) have "sizeAndOffsetUnchanged OVERSCAN_SIZE k ?v"
      by (simp add: sizeAndOffsetUnchanged_def abs_minus_commute)
    moreover from that(2) have "table\<lparr>previousKey := Some k\<rparr> = table" by simp
    ultimately show ?thesis
      using that(1,2) by (simp add: onVisiblePart_def distinctUntilChanged_def)
  qed
  have far: "onVisiblePart OVERSCAN_SIZE table part =
           (table\<lparr>this_state := setState_sizeAndOffset (this_state table) ?v,
                  previousKey := Some ?v\<rparr>, Some ?v)"
    if "?on" "previousKey table = Some k"
      "\<bar>next_offsetY ?v - next_offsetY k\<bar> \<ge> OVERSCAN_SIZE / 2
       \<or> \<bar>next_maxRenderWidth ?v - next_maxRenderWidth k\<bar> \<ge> OVERSCAN_SIZE / 2
       \<or> \<bar>next_maxRenderHeight ?v - next_maxRenderHeight k\<bar> \<ge> OVERSCAN_SIZE / 2" for k
  proof -
    from that(3) have "\<not> sizeAndOffsetUnchanged OVERSCAN_SIZE k ?v"
      by (auto simp: sizeAndOffsetUnchanged_def abs_minus_commute)
    then show ?thesis
      using that(1,2) by (simp add: onVisiblePart_def distinctUntilChanged_def)
  qed
  have off: "onVisiblePart OVERSCAN_SIZE table part = (table, None)" if "\<not> ?on"
    using that by (simp add: onVisiblePart_def)
  have x_on: "updateOffsetX OVERSCAN_SIZE state nextOffsetX =
          (if \<bar>nextOffsetX - offsetX state\<bar> < OVERSCAN_SIZE / 2 then None
           else Some (state\<lparr>offsetX := nextOffsetX\<rparr>))"
    if "horizontal (useVirtual state)"
    using that by (simp add: updateOffsetX_def)
  have x_off: "updateOffsetX OVERSCAN_SIZE state nextOffsetX = None"
    if "\<not> horizontal (useVirtual state)"
    using that by (simp add: updateOffsetX_def)
  show ?thesis
    by (intro conjI impI allI)
       (erule (1) first, erule (2) near, erule (2) far, erule off, erule x_on, erule x_off)
qed

lemma partAt_fields:
  "sizeAndOffsetOf (partAt y) =
     \<lparr>next_maxRenderHeight = 600, next_maxRenderWidth = 800, next_offsetY = y\<rparr>"
  by (simp add: sizeAndOffsetOf_def partAt_def)

lemma mountedTable_fields:
  "horizontal (useVirtual (this_state mountedTable))" "previousKey mountedTable = None"
  by (simp_all add: mountedTable_def tableState_def)

lemma scrolledTable_fields:
  "horizontal (useVirtual (this_state scrolledTable))"
  "previousKey scrolledTable =
     Some \<lparr>next_maxRenderHeight = 600, next_maxRenderWidth = 800, next_offsetY = 0\<rparr>"
  "offsetX (this_state scrolledTable) = 0"
  by (simp_all add: scrolledTable_def onVisiblePart_def distinctUntilChanged_def
        mountedTable_def tableState_def partAt_fields setState_sizeAndOffset_def)

text \<open>
  With an overscan of 100: the first event passes; after an event at offset 0 an event at
  offset 30 is dropped and one at offset 60 passes; a horizontal offset of 49 is dropped
  and one of 50 passes.
\<close>

theorem viewport_hysteresis_witness:
  "horizontal (useVirtual (this_state mountedTable)) \<and> previousKey mountedTable = None
   \<and> snd (onVisiblePart 100 mountedTable (partAt 0)) = Some (sizeAndOffsetOf (partAt 0))
   \<and> horizontal (useVirtual (this_state scrolledTable))
   \<and> previousKey scrolledTable = Some (sizeAndOffsetOf (partAt 0))
   \<and> onVisiblePart 100 scrolledTable (partAt 30) = (scrolledTable, None)
   \<and> snd (onVisiblePart 100 scrolledTable (partAt 60)) = Some (sizeAndOffsetOf (partAt 60))
   \<and> updateOffsetX 100 (this_state scrolledTable) 49 = None
   \<and> updateOffsetX 100 (this_state scrolledTable) 50
       = Some ((this_state scrolledTable)\<lparr>offsetX := 50\<rparr>)"
  using viewport_hysteresis [of mountedTable 100 "partAt 0" "this_state scrolledTable" 49]
    viewport_hysteresis [of scrolledTable 100 "partAt 30" "this_state scrolledTable" 50]
    viewport_hysteresis [of scrolledTable 100 "partAt 60" "this_state scrolledTable" 50]
  by (simp add: mountedTable_fields scrolledTable_fields partAt_fields)

text \<open>
  C6 as stated fails on three events at the offsets 0, 30 and 60 with an overscan of
  100: the second is dropped, and the third triggers an update although it differs from
  the second, the event just before it, by less than 50 in all three quantities.
\<close>

theorem consecutive_events_counterexample:
  "snd (onVisibleParts 100 mountedTable [partAt 0, partAt 30, partAt 60])
     = [Some (sizeAndOffsetOf (partAt 0)), None, Some (sizeAndOffsetOf (partAt 60))]
   \<and> \<bar>next_offsetY (sizeAndOffsetOf (partAt 60)) - next_offsetY (sizeAndOffsetOf (partAt 30))\<bar>
       < 100 / 2
   \<and> \<bar>next_maxRenderWidth (sizeAndOffsetOf (partAt 60))
        - next_maxRenderWidth (sizeAndOffsetOf (partAt 30))\<bar> < 100 / 2
   \<and> \<bar>next_maxRenderHeight (sizeAndOffsetOf (partAt 60))
        - next_maxRenderHeight (sizeAndOffsetOf (partAt 30))\<bar> < 100 / 2"
  by (simp add: onVisiblePart_def distinctUntilChanged_def sizeAndOffsetUnchanged_def
        mountedTable_def tableState_def partAt_fields setState_sizeAndOffset_def)

section \<open>The empty table: claims\<close>

subsection \<open>C10: the single cell of the empty table\<close>

text \<open>
  Claim C10. \<open>EmptyTable\<close> renders a single cell. The cell holds the empty-state content
  (\<open>EmptyContent\<close>, or the built-in content when none is given) if and only if
  \<open>isLoading\<close> is false; while loading its only child renders nothing. In both cases
  its height is \<open>emptyCellHeight\<close> when provided and 200 otherwise, and its \<open>colSpan\<close>
  is the \<open>colSpan\<close> supplied.
\<close>

theorem empty_table_cell:
  "\<exists>td. bodyCells (EmptyTable colgroup colSpan isLoading emptyCellHeight EmptyContent) = [td]
     \<and> tagOf td = Some ''td''
     \<and> attrOf ''colSpan'' td = Some (IntAttr colSpan)
     \<and> attrOf ''style.height'' td
         = Some (NumAttr (case emptyCellHeight of None \<Rightarrow> 200 | Some h \<Rightarrow> h))
     \<and> componentsIn td
         = (if isLoading then []
            else [case EmptyContent of None \<Rightarrow> DefaultEmptyContent | Some c \<Rightarrow> Custom c])
     \<and> childrenOf td \<noteq> []
     \<and> (childrenOf td = [Nothing]) = isLoading"
  by (simp add: EmptyTable_def bodyCells_def Let_def)

end
